theory Spec2Isabelle
  imports Main "HOL-Library.Word"
begin

unbundle bit_operations_syntax

section \<open>DevMemArena: the bump allocator of devmem_alloc.h\<close>

text \<open>
  The arena is the three static members of class \<open>DevMemArena\<close>. Addresses
  (\<open>char *\<close>) and \<open>size_t\<close> values are 64-bit words: the header needs /dev/mem and
  mmap, that is a 64-bit Linux process with a flat address space. Arithmetic on
  \<open>size_t\<close> wraps modulo \<open>2 ^ 64\<close>, as the operations of \<open>64 word\<close> do.
  The fields \<open>arena_base\<close>, \<open>arena_size\<close> and \<open>arena_offset\<close> are the members
  \<^verbatim>\<open>base_\<close>, \<^verbatim>\<open>size_\<close> and \<^verbatim>\<open>offset_\<close> (a name cannot end in an underscore here).
\<close>

type_synonym size_t = "64 word"
type_synonym addr = "64 word"

record arena =
  arena_base :: addr
  arena_size :: size_t
  arena_offset :: size_t

definition nullptr :: addr where
  "nullptr = 0"

text \<open>The static member definitions at the end of the header.\<close>

definition static_init :: arena where
  "static_init = \<lparr>arena_base = nullptr, arena_size = 0, arena_offset = 0\<rparr>"

text \<open>
  What a call writes to stdout or stderr, one constructor per \<open>printf\<close>,
  \<open>fprintf\<close> or \<open>perror\<close> of the header, with the values it prints.
\<close>

datatype diagnostic =
    Init_called_twice
  | Perror_open
  | Hint_root_iomem
  | Perror_mmap
  | Mmap_args "64 word" size_t
  | Mapped "64 word" size_t addr
  | Out_of_memory size_t size_t size_t
  | Used_MiB size_t size_t

text \<open>
  A call either returns a result or ends the process through \<open>exit(1)\<close>. An outcome is
  what was printed, how the call ended, and the static members at that moment.
\<close>

datatype 'a completion = Exits int | Returns 'a

type_synonym 'a outcome = "diagnostic list \<times> 'a completion \<times> arena"

text \<open>
  The answers of the operating system to one call of \<open>init\<close>: the descriptor that
  \<open>open\<close> returns and the address that \<open>mmap\<close> returns. \<open>MAP_FAILED\<close> is
  \<open>(void * ) -1\<close>.
\<close>

record os_reply =
  open_fd :: int
  mmap_ret :: addr

definition MAP_FAILED :: addr where
  "MAP_FAILED = - 1"

definition init :: "os_reply \<Rightarrow> 64 word \<Rightarrow> size_t \<Rightarrow> arena \<Rightarrow> unit outcome" where
  "init os phys_addr size' s =
     (if arena_base s \<noteq> nullptr then ([Init_called_twice], Returns (), s)
      else let fd = open_fd os in
        if fd < 0 then ([Perror_open, Hint_root_iomem], Exits 1, s)
        else let mapped = mmap_ret os in
          if mapped = MAP_FAILED then ([Perror_mmap, Mmap_args phys_addr size'], Exits 1, s)
          else ([Mapped phys_addr (drop_bit 20 size') mapped], Returns (),
                s\<lparr>arena_base := mapped, arena_size := size', arena_offset := 0\<rparr>))"

text \<open>
  \<open>alloc<T>(n)\<close>: the template parameter is represented by the two numbers the
  body takes from it, \<open>alignof(T)\<close> and \<open>sizeof(T)\<close>.
\<close>

record ctype =
  alignof :: size_t
  sizeof :: size_t

definition alloc :: "ctype \<Rightarrow> size_t \<Rightarrow> arena \<Rightarrow> addr outcome" where
  "alloc T n s =
     (let align = alignof T;
          cur = (arena_offset s + align - 1) AND NOT (align - 1);
          needed = n * sizeof T
      in if cur + needed > arena_size s
         then ([Out_of_memory needed cur (arena_size s)], Exits 1, s)
         else ([], Returns (arena_base s + cur), s\<lparr>arena_offset := cur + needed\<rparr>))"

definition is_arena_ptr :: "addr \<Rightarrow> arena \<Rightarrow> bool outcome" where
  "is_arena_ptr p s =
     (let cp = p in ([], Returns (cp \<ge> arena_base s \<and> cp < arena_base s + arena_size s), s))"

definition print_stats :: "arena \<Rightarrow> unit outcome" where
  "print_stats s =
     ([Used_MiB (drop_bit 20 (arena_offset s)) (drop_bit 20 (arena_size s))], Returns (), s)"

text \<open>The two locals of \<open>alloc\<close> that the exhaustion test reads, by name.\<close>

definition alloc_cur :: "ctype \<Rightarrow> arena \<Rightarrow> size_t" where
  "alloc_cur T s = (arena_offset s + alignof T - 1) AND NOT (alignof T - 1)"

definition alloc_needed :: "ctype \<Rightarrow> size_t \<Rightarrow> size_t" where
  "alloc_needed T n = n * sizeof T"

text \<open>
  Element types used in the examples: two of an x86-64 build, and one declared
  with \<open>alignas(8192)\<close>, whose alignment is larger than a page.
\<close>

definition char_T :: ctype where
  "char_T = \<lparr>alignof = 1, sizeof = 1\<rparr>"

definition int64_T :: ctype where
  "int64_T = \<lparr>alignof = 8, sizeof = 8\<rparr>"

definition overaligned_T :: ctype where
  "overaligned_T = \<lparr>alignof = 0x2000, sizeof = 0x2000\<rparr>"

text \<open>
  A caller that performs allocations one after the other, as the graph builder does
  for its arrays. The process ends at the first call that exits.
\<close>

fun alloc_calls :: "(ctype \<times> size_t) list \<Rightarrow> arena \<Rightarrow> addr list outcome" where
  "alloc_calls [] s = ([], Returns [], s)"
| "alloc_calls ((T, n) # rs) s =
     (case alloc T n s of
        (out, Exits c, s') \<Rightarrow> (out, Exits c, s')
      | (out, Returns p, s') \<Rightarrow>
          (case alloc_calls rs s' of
             (out', Exits c, s'') \<Rightarrow> (out @ out', Exits c, s'')
           | (out', Returns ps, s'') \<Rightarrow> (out @ out', Returns (p # ps), s'')))"

text \<open>
  The states a process can be in: the static initial values, and what a returning
  call of \<open>init\<close> or \<open>alloc\<close> leaves. \<open>is_arena_ptr\<close> and \<open>print_stats\<close> write
  no member.
\<close>

inductive reachable :: "arena \<Rightarrow> bool" where
  start: "reachable static_init"
| after_init: "reachable s \<Longrightarrow> init os phys_addr sz s = (out, Returns u, s') \<Longrightarrow> reachable s'"
| after_alloc: "reachable s \<Longrightarrow> alloc T n s = (out, Returns p, s') \<Longrightarrow> reachable s'"

section \<open>The quantities of the specification\<close>

text \<open>
  The specification speaks of unbounded numbers: the cursor rounded up to the next
  multiple of the alignment, and the count times the element size. They are natural
  numbers here, to be compared with what the 64-bit code computes.
\<close>

definition round_up :: "nat \<Rightarrow> nat \<Rightarrow> nat" where
  "round_up c a = ((c + a - 1) div a) * a"

definition aligned_start :: "ctype \<Rightarrow> arena \<Rightarrow> nat" where
  "aligned_start T s = round_up (unat (arena_offset s)) (unat (alignof T))"

definition needed_bytes :: "ctype \<Rightarrow> size_t \<Rightarrow> nat" where
  "needed_bytes T n = unat n * unat (sizeof T)"

text \<open>\<open>alignof(T)\<close> is a power of two that fits \<open>size_t\<close>: C++ guarantees it.\<close>

definition power_of_two :: "size_t \<Rightarrow> bool" where
  "power_of_two a = (a \<in> (\<lambda>k. 2 ^ k) ` {0..<64})"

text \<open>
  A request is an alignment and a number of bytes. \<open>plan\<close> lays requests out from
  a cursor the way the specification describes it, each start rounded up, and gives
  the start and size of each; \<open>plan_end\<close> is the cursor after the last one, so the
  requests fit collectively when it is at most the capacity; \<open>aligned_extents\<close> are
  the bytes each request consumes, padding included.
\<close>

definition request :: "ctype \<times> size_t \<Rightarrow> nat \<times> nat" where
  "request r = (unat (alignof (fst r)), needed_bytes (fst r) (snd r))"

fun plan :: "nat \<Rightarrow> (nat \<times> nat) list \<Rightarrow> (nat \<times> nat) list" where
  "plan c [] = []"
| "plan c ((a, b) # rq) = (round_up c a, b) # plan (round_up c a + b) rq"

fun plan_end :: "nat \<Rightarrow> (nat \<times> nat) list \<Rightarrow> nat" where
  "plan_end c [] = c"
| "plan_end c ((a, b) # rq) = plan_end (round_up c a + b) rq"

fun aligned_extents :: "nat \<Rightarrow> (nat \<times> nat) list \<Rightarrow> nat list" where
  "aligned_extents c [] = []"
| "aligned_extents c ((a, b) # rq) =
     (round_up c a - c + b) # aligned_extents (round_up c a + b) rq"

text \<open>
  The bytes of an allocation returned at \<open>p\<close>, and the part of the mapping beyond the
  cursor, as sets of addresses.
\<close>

definition extent :: "addr \<Rightarrow> ctype \<times> size_t \<Rightarrow> nat set" where
  "extent p r = {unat p ..< unat p + needed_bytes (fst r) (snd r)}"

definition unused_region :: "arena \<Rightarrow> nat set" where
  "unused_region s =
     {unat (arena_base s) + unat (arena_offset s) ..< unat (arena_base s) + unat (arena_size s)}"

section \<open>Rounding up\<close>

lemma power_of_twoE:
  assumes "power_of_two a"
  obtains k where "k < 64" and "a = 2 ^ k"
  using assms by (auto simp: power_of_two_def)

lemma power_of_twoI: "k < 64 \<Longrightarrow> power_of_two (2 ^ k)"
  by (simp add: power_of_two_def)

lemma round_up_split:
  assumes "0 < a"
  obtains r where "r < a" and "round_up c a + r = c + a - 1"
proof -
  have "(c + a - 1) div a * a + (c + a - 1) mod a = c + a - 1"
    by (rule div_mult_mod_eq)
  moreover have "(c + a - 1) mod a < a"
    using assms by simp
  ultimately show ?thesis
    using that by (simp add: round_up_def)
qed

lemma round_up_ge: "0 < a \<Longrightarrow> c \<le> round_up c a"
  by (rule round_up_split [of a c]) simp_all

lemma round_up_dvd: "a dvd round_up c a"
  by (simp add: round_up_def)

lemma round_up_less: "0 < a \<Longrightarrow> round_up c a < c + a"
  by (rule round_up_split [of a c]) simp_all

lemma round_up_least:
  assumes "0 < a" and "a dvd m" and "c \<le> m"
  shows "round_up c a \<le> m"
proof -
  define j where "j = m div a"
  have m: "m = j * a"
    using \<open>a dvd m\<close> by (simp add: j_def)
  have "c + a - 1 < Suc j * a"
    using assms m by simp
  then have "(c + a - 1) div a < Suc j"
    by (rule less_mult_imp_div_less)
  then have "(c + a - 1) div a * a \<le> j * a"
    by simp
  then show ?thesis
    by (simp add: round_up_def m)
qed

lemma round_up_id: "0 < a \<Longrightarrow> a dvd c \<Longrightarrow> round_up c a = c"
  by (rule antisym) (simp_all add: round_up_least round_up_ge)

lemma and_not_mask_diff: "(x::64 word) AND NOT (mask k) = x - (x AND mask k)"
proof -
  have "x - (x AND mask k) = x AND NOT (x AND mask k)"
    by (rule disjunctive_diff) (simp add: bit_and_iff)
  also have "\<dots> = x AND NOT (mask k)"
    by (rule bit_eqI) (auto simp: bit_simps)
  finally show ?thesis by simp
qed

lemma unat_and_not_mask: "unat ((x::64 word) AND NOT (mask k)) = unat x div 2 ^ k * 2 ^ k"
proof -
  have "unat (x - (x AND mask k)) = unat x - unat (x AND mask k)"
    by (rule unat_sub) (rule word_and_le2)
  also have "unat (x AND mask k) = unat x mod 2 ^ k"
    by (metis take_bit_eq_mask take_bit_eq_mod unsigned_take_bit_eq)
  finally show ?thesis
    by (simp add: and_not_mask_diff minus_mod_eq_div_mult)
qed

lemma unat_mask64: "unat (mask k :: 64 word) = 2 ^ k - 1" if "k \<le> 64"
proof -
  have "unat (mask k :: 64 word) = mask (min 64 k)"
    by transfer (simp add: nat_mask_eq)
  then show ?thesis
    using that by (simp add: mask_eq_exp_minus_1 min_def)
qed
  
lemma div_mult_mod_exp:
  "k \<le> n \<Longrightarrow> ((y::nat) mod 2 ^ n) div 2 ^ k * 2 ^ k = (y div 2 ^ k * 2 ^ k) mod 2 ^ n"
  by (metis diff_add_inverse div_exp_mod_exp_eq le_Suc_ex mult_exp_mod_exp_eq)

lemma unat_align:
  assumes "k < 64"
  shows "unat (((c::64 word) + 2 ^ k - 1) AND NOT (2 ^ k - 1))
         = round_up (unat c) (2 ^ k) mod 2 ^ 64"
proof -
  have m: "(2 ^ k - 1 :: 64 word) = mask k"
    by (simp add: mask_eq_decr_exp)
  have "c + 2 ^ k - 1 = c + mask k"
    by (simp add: mask_eq_decr_exp)
  then have "unat ((c + 2 ^ k - 1) AND NOT (2 ^ k - 1)) = unat (c + mask k) div 2 ^ k * 2 ^ k"
    by (simp only: m unat_and_not_mask)
  moreover have "unat (c + mask k) = (unat c + 2 ^ k - 1) mod 2 ^ 64"
    using assms by (simp add: unat_word_ariths unat_mask64)
  ultimately show ?thesis
    using assms div_mult_mod_exp [of k 64 "unat c + 2 ^ k - 1"]
    by (simp add: round_up_def)
qed

section \<open>One allocation\<close>

lemma alloc_locals:
  "alloc T n s =
     (if alloc_cur T s + alloc_needed T n > arena_size s
      then ([Out_of_memory (alloc_needed T n) (alloc_cur T s) (arena_size s)], Exits 1, s)
      else ([], Returns (arena_base s + alloc_cur T s),
            s\<lparr>arena_offset := alloc_cur T s + alloc_needed T n\<rparr>))"
  by (simp add: alloc_def alloc_cur_def alloc_needed_def Let_def)

lemma unat_power_of_two: "unat (2 ^ k :: 64 word) = 2 ^ k" if "k < 64"
proof -
  have "(2::nat) ^ k < 2 ^ 64"
    using that by (simp only: power_strict_increasing_iff numeral_less_iff semiring_norm)
  then show ?thesis
    using unat_of_nat [of "2 ^ k", where 'a = 64] by simp
qed

lemma unat_alloc_cur:
  assumes "power_of_two (alignof T)"
  shows "unat (alloc_cur T s) = aligned_start T s mod 2 ^ 64"
proof -
  from assms obtain k where k: "k < 64" "alignof T = 2 ^ k"
    by (rule power_of_twoE)
  then show ?thesis
    using unat_align [of k "arena_offset s"]
    by (simp add: alloc_cur_def aligned_start_def unat_power_of_two)
qed

lemma unat_alloc_needed: "unat (alloc_needed T n) = needed_bytes T n mod 2 ^ 64"
  by (simp add: alloc_needed_def needed_bytes_def unat_word_ariths)

lemma alloc_exits_iff:
  "(\<exists>c. fst (snd (alloc T n s)) = Exits c) \<longleftrightarrow>
     unat (arena_size s) < (unat (alloc_cur T s) + needed_bytes T n mod 2 ^ 64) mod 2 ^ 64"
  by (simp add: alloc_locals word_less_nat_alt unat_word_ariths unat_alloc_needed)

lemma alloc_fits:
  assumes "power_of_two (alignof T)"
      and "aligned_start T s + needed_bytes T n \<le> unat (arena_size s)"
  shows "alloc T n s =
           ([], Returns (arena_base s + of_nat (aligned_start T s)),
            s\<lparr>arena_offset := of_nat (aligned_start T s + needed_bytes T n)\<rparr>)"
proof -
  have lim: "unat (arena_size s) < 2 ^ 64"
    using unsigned_less [of "arena_size s"] by simp
  have c: "unat (alloc_cur T s) = aligned_start T s"
    using assms lim by (simp add: unat_alloc_cur)
  have n: "unat (alloc_needed T n) = needed_bytes T n"
    using assms lim by (simp add: unat_alloc_needed)
  have sum: "unat (alloc_cur T s + alloc_needed T n) = aligned_start T s + needed_bytes T n"
    using assms lim c n by (simp add: unat_word_ariths)
  have "alloc_cur T s = of_nat (aligned_start T s)"
    by (simp flip: c)
  moreover have "alloc_cur T s + alloc_needed T n = of_nat (aligned_start T s + needed_bytes T n)"
    by (simp only: sum [symmetric] of_nat_unat ucast_id)
  moreover have "\<not> alloc_cur T s + alloc_needed T n > arena_size s"
    using assms sum by (simp add: word_less_nat_alt)
  ultimately show ?thesis
    by (simp add: alloc_locals)
qed

lemma unat_base_plus:
  assumes "unat (b::64 word) + n < 2 ^ 64"
  shows "unat (b + of_nat n) = unat b + n"
proof -
  have "unat (of_nat n :: 64 word) = n"
    using assms unat_of_nat [of n, where 'a = 64] by simp
  then show ?thesis
    using assms by (simp add: unat_word_ariths)
qed

text \<open>
  An exit happens only when the request exceeds the capacity, and always when it does
  and the sum fits 64 bits. Either way an exit leaves the static members as they were
  and reports the needed bytes, the aligned cursor and the capacity.
\<close>

lemma alloc_exits_only_if_exceeds:
  assumes "power_of_two (alignof T)" and "alloc T n s = (out, Exits c, s')"
  shows "unat (arena_size s) < aligned_start T s + needed_bytes T n"
proof (rule ccontr)
  assume "\<not> unat (arena_size s) < aligned_start T s + needed_bytes T n"
  then have "aligned_start T s + needed_bytes T n \<le> unat (arena_size s)"
    by simp
  from alloc_fits [OF assms(1) this] show False
    using assms(2) by simp
qed

lemma alloc_exceeds_no_wrap:
  assumes "power_of_two (alignof T)"
      and "unat (arena_size s) < aligned_start T s + needed_bytes T n"
      and "aligned_start T s + needed_bytes T n < 2 ^ 64"
  shows "alloc T n s =
           ([Out_of_memory (alloc_needed T n) (alloc_cur T s) (arena_size s)], Exits 1, s)"
proof -
  have c: "unat (alloc_cur T s) = aligned_start T s"
    using assms by (simp add: unat_alloc_cur)
  have n: "unat (alloc_needed T n) = needed_bytes T n"
    using assms by (simp add: unat_alloc_needed)
  have "unat (alloc_cur T s + alloc_needed T n) = aligned_start T s + needed_bytes T n"
    using assms c n by (simp add: unat_word_ariths)
  then have "alloc_cur T s + alloc_needed T n > arena_size s"
    using assms by (simp add: word_less_nat_alt)
  then show ?thesis
    by (simp add: alloc_locals)
qed

section \<open>What every call preserves\<close>

text \<open>
  A call of \<open>alloc\<close> that returns leaves the cursor at most the capacity, whatever
  wrapped on the way, and never touches base or capacity; \<open>init\<close> keeps the bound as
  well.
\<close>

lemma alloc_returns_bound:
  assumes "alloc T n s = (out, Returns p, s')"
  shows "arena_offset s' \<le> arena_size s' \<and> arena_base s' = arena_base s \<and> arena_size s' = arena_size s"
  using assms by (auto simp: alloc_locals split: if_splits)

lemma alloc_exits_unchanged:
  assumes "alloc T n s = (out, Exits c, s')"
  shows "s' = s \<and> c = 1 \<and> out = [Out_of_memory (alloc_needed T n) (alloc_cur T s) (arena_size s)]"
  using assms by (auto simp: alloc_locals split: if_splits)

lemma init_returns_bound:
  assumes "init os phys_addr sz s = (out, Returns u, s')" and "arena_offset s \<le> arena_size s"
  shows "arena_offset s' \<le> arena_size s'"
  using assms by (auto simp: init_def Let_def split: if_splits)


lemma read_only_calls:
  "snd (snd (is_arena_ptr p s)) = s \<and> snd (snd (print_stats s)) = s"
  by (simp add: is_arena_ptr_def print_stats_def)

lemma reachable_cursor_le_capacity: "reachable s \<Longrightarrow> arena_offset s \<le> arena_size s"
proof (induction rule: reachable.induct)
  case start
  then show ?case
    by (simp add: static_init_def)
next
  case (after_init s os phys_addr sz out u s')
  then show ?case
    using init_returns_bound by blast
next
  case (after_alloc s T n out p s')
  then show ?case
    using alloc_returns_bound by blast
qed

section \<open>The membership test on addresses\<close>

lemma is_arena_ptr_unat:
  assumes "unat (arena_base s) + unat (arena_size s) < 2 ^ 64"
  shows "is_arena_ptr p s =
           ([], Returns (unat (arena_base s) \<le> unat p
                         \<and> unat p < unat (arena_base s) + unat (arena_size s)), s)"
proof -
  have "unat (arena_base s + arena_size s) = unat (arena_base s) + unat (arena_size s)"
    using assms by (simp add: unat_word_ariths)
  then show ?thesis
    by (simp add: is_arena_ptr_def word_le_nat_alt word_less_nat_alt)
qed

section \<open>Sequences of allocations\<close>

lemma length_plan [simp]: "length (plan c rq) = length rq"
  by (induction c rq rule: plan.induct) simp_all

lemma plan_end_ge: "list_all (\<lambda>r. 0 < fst r) rq \<Longrightarrow> c \<le> plan_end c rq"
proof (induction c rq rule: plan_end.induct)
  case (1 c)
  then show ?case by simp
next
  case (2 c a b rq)
  then have "round_up c a + b \<le> plan_end (round_up c a + b) rq"
    by simp
  moreover have "c \<le> round_up c a"
    using 2 by (simp add: round_up_ge)
  ultimately show ?case
    by simp
qed

lemma plan_end_sum:
  "list_all (\<lambda>r. 0 < fst r) rq \<Longrightarrow> plan_end c rq = c + sum_list (aligned_extents c rq)"
proof (induction c rq rule: plan_end.induct)
  case (1 c)
  then show ?case by simp
next
  case (2 c a b rq)
  moreover have "c \<le> round_up c a"
    using 2 by (simp add: round_up_ge)
  ultimately show ?case
    by simp
qed

lemma plan_nth_bounds:
  assumes "list_all (\<lambda>r. 0 < fst r) rq" and "i < length rq"
  shows "c \<le> fst (plan c rq ! i)
         \<and> fst (plan c rq ! i) + snd (plan c rq ! i) \<le> plan_end c rq
         \<and> snd (plan c rq ! i) = snd (rq ! i)
         \<and> fst (rq ! i) dvd fst (plan c rq ! i)"
  using assms
proof (induction c rq arbitrary: i rule: plan.induct)
  case (1 c)
  then show ?case by simp
next
  case (2 c a b rq)
  have pos: "0 < a" and rest: "list_all (\<lambda>r. 0 < fst r) rq"
    using 2 by simp_all
  have ge: "c \<le> round_up c a"
    using pos by (rule round_up_ge)
  show ?case
  proof (cases i)
    case 0
    then show ?thesis
      using ge plan_end_ge [OF rest, of "round_up c a + b"] by (simp add: round_up_dvd)
  next
    case (Suc k)
    then have "k < length rq"
      using 2 by simp
    from "2.IH" [OF rest this] show ?thesis
      using ge Suc by simp
  qed
qed

lemma plan_nth_ordered:
  assumes "list_all (\<lambda>r. 0 < fst r) rq" and "i < j" and "j < length rq"
  shows "fst (plan c rq ! i) + snd (plan c rq ! i) \<le> fst (plan c rq ! j)"
  using assms
proof (induction c rq arbitrary: i j rule: plan.induct)
  case (1 c)
  then show ?case by simp
next
  case (2 c a b rq)
  have rest: "list_all (\<lambda>r. 0 < fst r) rq"
    using 2 by simp
  from \<open>i < j\<close> obtain m where j: "j = Suc m"
    by (cases j) simp_all
  then have m: "m < length rq"
    using 2 by simp
  show ?case
  proof (cases i)
    case 0
    then show ?thesis
      using plan_nth_bounds [OF rest m, of "round_up c a + b"] j by simp
  next
    case (Suc k)
    then have "k < m"
      using 2 j by simp
    from "2.IH" [OF rest this m] show ?thesis
      using Suc j by simp
  qed
qed

lemma request_pos:
  assumes "list_all (\<lambda>r. power_of_two (alignof (fst r))) rs"
  shows "list_all (\<lambda>r. 0 < fst r) (map request rs)"
proof -
  have "0 < unat a" if "power_of_two a" for a
    using that by (auto elim!: power_of_twoE simp: unat_power_of_two)
  then show ?thesis
    using assms by (simp add: list_all_iff request_def)
qed

lemma request_pair: "request (T, n) = (unat (alignof T), needed_bytes T n)"
  by (simp add: request_def)

lemma alloc_calls_fit:
  assumes "list_all (\<lambda>r. power_of_two (alignof (fst r))) rs"
      and "plan_end (unat (arena_offset s)) (map request rs) \<le> unat (arena_size s)"
  shows "alloc_calls rs s =
           ([], Returns (map (\<lambda>e. arena_base s + of_nat (fst e))
                           (plan (unat (arena_offset s)) (map request rs))),
            s\<lparr>arena_offset := of_nat (plan_end (unat (arena_offset s)) (map request rs))\<rparr>)"
  using assms
proof (induction rs arbitrary: s)
  case Nil
  then show ?case by simp
next
  case (Cons r rs)
  obtain T n where r: "r = (T, n)"
    by (cases r)
  have pw: "power_of_two (alignof T)"
    and pws: "list_all (\<lambda>r. power_of_two (alignof (fst r))) rs"
    using Cons.prems r by simp_all
  let ?c = "aligned_start T s + needed_bytes T n"
  have e: "plan_end (unat (arena_offset s)) (map request (r # rs)) = plan_end ?c (map request rs)"
    by (simp add: r request_pair aligned_start_def)
  have "?c \<le> plan_end ?c (map request rs)"
    using request_pos [OF pws] by (rule plan_end_ge)
  then have fit: "?c \<le> unat (arena_size s)"
    using Cons.prems e by simp
  let ?s1 = "s\<lparr>arena_offset := of_nat ?c\<rparr>"
  have a: "alloc T n s = ([], Returns (arena_base s + of_nat (aligned_start T s)), ?s1)"
    using pw fit by (rule alloc_fits)
  have "unat (arena_size s) < 2 ^ 64"
    using unsigned_less [of "arena_size s"] by simp
  then have u: "unat (arena_offset ?s1) = ?c"
    using fit unat_of_nat [of ?c, where 'a = 64] by simp
  have "plan_end (unat (arena_offset ?s1)) (map request rs) \<le> unat (arena_size ?s1)"
    using Cons.prems e u by simp
  from Cons.IH [OF pws this] have
    "alloc_calls rs ?s1 =
       ([], Returns (map (\<lambda>e. arena_base s + of_nat (fst e)) (plan ?c (map request rs))),
        s\<lparr>arena_offset := of_nat (plan_end ?c (map request rs))\<rparr>)"
    by (simp only: u) simp
  then show ?case
    using a by (simp add: r request_pair aligned_start_def)
qed

section \<open>Allocation within capacity\<close>

text \<open>
  C1. \<open>alloc<T>(n)\<close> takes for its start the cursor rounded up to the next
  multiple of \<open>alignof(T)\<close> and for its size \<open>n\<close> times \<open>sizeof(T)\<close>; when start plus
  size is at most the capacity, both are computed without wrap-around, the cursor
  becomes start plus size, and the call returns the address base plus start and
  prints nothing.
\<close>

theorem alloc_within_capacity:
  assumes "power_of_two (alignof T)"
      and "aligned_start T s + needed_bytes T n \<le> unat (arena_size s)"
  shows "alloc T n s =
           ([], Returns (arena_base s + of_nat (aligned_start T s)),
            s\<lparr>arena_offset := of_nat (aligned_start T s + needed_bytes T n)\<rparr>)
         \<and> unat (arena_offset (snd (snd (alloc T n s)))) = aligned_start T s + needed_bytes T n
         \<and> unat (alloc_cur T s) = aligned_start T s
         \<and> unat (alloc_needed T n) = needed_bytes T n"
proof -
  have lim: "unat (arena_size s) < 2 ^ 64"
    using unsigned_less [of "arena_size s"] by simp
  have "unat (alloc_cur T s) = aligned_start T s"
    using assms lim by (simp add: unat_alloc_cur)
  moreover have "unat (alloc_needed T n) = needed_bytes T n"
    using assms lim by (simp add: unat_alloc_needed)
  moreover have "unat (of_nat (aligned_start T s + needed_bytes T n) :: size_t)
                 = aligned_start T s + needed_bytes T n"
    using assms lim unat_of_nat [of "aligned_start T s + needed_bytes T n", where 'a = 64]
    by simp
  ultimately show ?thesis
    by (simp add: alloc_fits [OF assms])
qed

theorem alloc_within_capacity_witness:
  "power_of_two (alignof int64_T)
   \<and> aligned_start int64_T \<lparr>arena_base = 0x7f0000000000, arena_size = 1024, arena_offset = 0\<rparr>
       + needed_bytes int64_T 10 \<le> 1024
   \<and> alloc int64_T 10 \<lparr>arena_base = 0x7f0000000000, arena_size = 1024, arena_offset = 0\<rparr>
       = ([], Returns 0x7f0000000000,
          \<lparr>arena_base = 0x7f0000000000, arena_size = 1024, arena_offset = 80\<rparr>)"
proof -
  have p: "power_of_two (alignof int64_T)"
    using power_of_twoI [of 3] by (simp add: int64_T_def)
  have f: "aligned_start int64_T \<lparr>arena_base = 0x7f0000000000, arena_size = 1024, arena_offset = 0\<rparr>
       + needed_bytes int64_T 10
       \<le> unat (arena_size \<lparr>arena_base = 0x7f0000000000, arena_size = 1024, arena_offset = 0\<rparr>)"
    by (simp add: aligned_start_def needed_bytes_def round_up_def int64_T_def)
  show ?thesis
    using p f alloc_within_capacity [OF p f]
    by (simp add: aligned_start_def needed_bytes_def round_up_def int64_T_def)
qed

section \<open>Exhaustion and wrap-around\<close>

text \<open>
  C2. The claim: \<open>alloc\<close> exits exactly when the request exceeds the capacity. The
  code follows it only while \<open>n * sizeof(T)\<close> and \<open>cur + needed\<close> fit 64 bits. With
  capacity 1024 and cursor 84, a request for \<open>2 ^ 61 + 1\<close> elements of 8 bytes is a
  request for \<open>2 ^ 64 + 8\<close> bytes from the aligned start 88; the product wraps to 8,
  the test passes, and the call returns base + 88 with the cursor at 96.
\<close>

theorem alloc_oversized_request_returns:
  "needed_bytes int64_T (2 ^ 61 + 1) = 2 ^ 64 + 8
   \<and> aligned_start int64_T \<lparr>arena_base = 0x7f0000000000, arena_size = 1024, arena_offset = 84\<rparr>
       = 88
   \<and> alloc int64_T (2 ^ 61 + 1)
         \<lparr>arena_base = 0x7f0000000000, arena_size = 1024, arena_offset = 84\<rparr>
       = ([], Returns (0x7f0000000000 + 88),
          \<lparr>arena_base = 0x7f0000000000, arena_size = 1024, arena_offset = 96\<rparr>)"
  by (simp add: alloc_def needed_bytes_def aligned_start_def round_up_def int64_T_def)

text \<open>
  C3. The claim: the cursor stays within the capacity and never decreases. The bound
  holds after every call; the cursor does decrease when the sum wraps. After
  \<open>init\<close> with 1024 bytes and ten 8-byte elements the cursor is 80; a request for
  \<open>2 ^ 64 - 80\<close> single bytes makes \<open>cur + needed\<close> wrap to 0, the test passes, the
  call returns base + 80 and the cursor is back at 0.
\<close>

theorem cursor_decreases_after_wrap:
  "init \<lparr>open_fd = 3, mmap_ret = 0x7f0000000000\<rparr> 0xF00000000 1024 static_init
     = ([Mapped 0xF00000000 0 0x7f0000000000], Returns (),
        \<lparr>arena_base = 0x7f0000000000, arena_size = 1024, arena_offset = 0\<rparr>)
   \<and> alloc int64_T 10 \<lparr>arena_base = 0x7f0000000000, arena_size = 1024, arena_offset = 0\<rparr>
     = ([], Returns 0x7f0000000000,
        \<lparr>arena_base = 0x7f0000000000, arena_size = 1024, arena_offset = 80\<rparr>)
   \<and> unat (- 80 :: size_t) = 2 ^ 64 - 80
   \<and> alloc char_T (- 80) \<lparr>arena_base = 0x7f0000000000, arena_size = 1024, arena_offset = 80\<rparr>
     = ([], Returns (0x7f0000000000 + 80),
        \<lparr>arena_base = 0x7f0000000000, arena_size = 1024, arena_offset = 0\<rparr>)"
  by (simp add: init_def alloc_def static_init_def nullptr_def MAP_FAILED_def
      int64_T_def char_T_def)

text \<open>
  C8. The arithmetic of \<open>alloc\<close> is that of \<open>size_t\<close>: the needed bytes are the
  product modulo \<open>2 ^ 64\<close>, the aligned cursor is the rounded cursor modulo
  \<open>2 ^ 64\<close>, and the call exits exactly when their sum modulo \<open>2 ^ 64\<close> is larger
  than the capacity. So a count whose byte size exceeds the capacity can pass: with
  capacity 1024, \<open>2 ^ 61\<close> elements of 8 bytes need 0 bytes after wrapping and the
  call returns.
\<close>

theorem alloc_arithmetic_wraps:
  "unat (alloc_needed T n) = needed_bytes T n mod 2 ^ 64
   \<and> ((\<exists>c. fst (snd (alloc T n s)) = Exits c) \<longleftrightarrow>
        unat (arena_size s) < (unat (alloc_cur T s) + needed_bytes T n mod 2 ^ 64) mod 2 ^ 64)
   \<and> (power_of_two (alignof T) \<longrightarrow> unat (alloc_cur T s) = aligned_start T s mod 2 ^ 64)
   \<and> unat (arena_size \<lparr>arena_base = b, arena_size = 1024, arena_offset = 0\<rparr>)
        < needed_bytes int64_T (2 ^ 61)
   \<and> alloc int64_T (2 ^ 61) \<lparr>arena_base = b, arena_size = 1024, arena_offset = 0\<rparr>
        = ([], Returns b, \<lparr>arena_base = b, arena_size = 1024, arena_offset = 0\<rparr>)"
proof -
  have "alloc int64_T (2 ^ 61) \<lparr>arena_base = b, arena_size = 1024, arena_offset = 0\<rparr>
        = ([], Returns b, \<lparr>arena_base = b, arena_size = 1024, arena_offset = 0\<rparr>)"
    by (simp add: alloc_def int64_T_def)
  moreover have "unat (arena_size \<lparr>arena_base = b, arena_size = 1024, arena_offset = 0\<rparr>)
        < needed_bytes int64_T (2 ^ 61)"
    by (simp add: needed_bytes_def int64_T_def)
  ultimately show ?thesis
    using alloc_exits_iff [of T n s] by (simp add: unat_alloc_needed unat_alloc_cur)
qed

theorem alloc_arithmetic_wraps_witness:
  "power_of_two (alignof char_T)
   \<and> unat (alloc_cur char_T \<lparr>arena_base = 0x7f0000000000, arena_size = 1024, arena_offset = 80\<rparr>) = 80
   \<and> unat (alloc_needed char_T (- 80)) = 2 ^ 64 - 80
   \<and> (\<nexists>c. fst (snd (alloc char_T (- 80)
         \<lparr>arena_base = 0x7f0000000000, arena_size = 1024, arena_offset = 80\<rparr>)) = Exits c)"
proof -
  have p: "power_of_two (alignof char_T)"
    using power_of_twoI [of 0] by (simp add: char_T_def)
  show ?thesis
    using p alloc_arithmetic_wraps [of char_T "- 80"
        "\<lparr>arena_base = 0x7f0000000000, arena_size = 1024, arena_offset = 80\<rparr>" 0]
    by (simp add: aligned_start_def needed_bytes_def round_up_def char_T_def)
qed

text \<open>
  C10. A call with count 0 returns whenever the rounded cursor is at most the
  capacity. The cursor moves up to the rounded cursor, so the padding is consumed,
  and the address returned is base plus the rounded cursor: base plus capacity when
  the arena is full and its cursor is aligned.
\<close>

theorem alloc_zero_count:
  assumes "power_of_two (alignof T)"
      and "aligned_start T s \<le> unat (arena_size s)"
  shows "alloc T 0 s =
           ([], Returns (arena_base s + of_nat (aligned_start T s)),
            s\<lparr>arena_offset := of_nat (aligned_start T s)\<rparr>)
         \<and> unat (of_nat (aligned_start T s) :: size_t) = aligned_start T s
         \<and> unat (arena_offset s) \<le> aligned_start T s
         \<and> (arena_offset s = arena_size s \<and> unat (alignof T) dvd unat (arena_offset s) \<longrightarrow>
              alloc T 0 s = ([], Returns (arena_base s + arena_size s), s))"
proof -
  from assms(1) obtain k where k: "k < 64" "alignof T = 2 ^ k"
    by (rule power_of_twoE)
  then have pos: "0 < unat (alignof T)"
    by (simp add: unat_power_of_two)
  have lim: "unat (arena_size s) < 2 ^ 64"
    using unsigned_less [of "arena_size s"] by simp
  have fits: "aligned_start T s + needed_bytes T 0 \<le> unat (arena_size s)"
    using assms by (simp add: needed_bytes_def)
  have r: "alloc T 0 s =
           ([], Returns (arena_base s + of_nat (aligned_start T s)),
            s\<lparr>arena_offset := of_nat (aligned_start T s)\<rparr>)"
    using alloc_fits [OF assms(1) fits] by (simp add: needed_bytes_def)
  have u: "unat (of_nat (aligned_start T s) :: size_t) = aligned_start T s"
    using assms lim unat_of_nat [of "aligned_start T s", where 'a = 64] by simp
  have g: "unat (arena_offset s) \<le> aligned_start T s"
    using pos by (simp add: aligned_start_def round_up_ge)
  have "alloc T 0 s = ([], Returns (arena_base s + arena_size s), s)"
    if "arena_offset s = arena_size s" and "unat (alignof T) dvd unat (arena_offset s)"
  proof -
    have "aligned_start T s = unat (arena_offset s)"
      using pos that by (simp add: aligned_start_def round_up_id)
    then show ?thesis
      using r that by simp
  qed
  with r u g show ?thesis
    by blast
qed

theorem alloc_zero_count_witness:
  "power_of_two (alignof int64_T)
   \<and> aligned_start int64_T \<lparr>arena_base = 0x7f0000000000, arena_size = 1024, arena_offset = 1024\<rparr>
       \<le> 1024
   \<and> alloc int64_T 0 \<lparr>arena_base = 0x7f0000000000, arena_size = 1024, arena_offset = 1024\<rparr>
       = ([], Returns (0x7f0000000000 + 1024),
          \<lparr>arena_base = 0x7f0000000000, arena_size = 1024, arena_offset = 1024\<rparr>)"
proof -
  have p: "power_of_two (alignof int64_T)"
    using power_of_twoI [of 3] by (simp add: int64_T_def)
  have f: "aligned_start int64_T \<lparr>arena_base = 0x7f0000000000, arena_size = 1024, arena_offset = 1024\<rparr>
       \<le> unat (arena_size \<lparr>arena_base = 0x7f0000000000, arena_size = 1024, arena_offset = 1024\<rparr>)"
    by (simp add: aligned_start_def round_up_def int64_T_def)
  show ?thesis
    using p f alloc_zero_count [OF p f]
    by (simp add: aligned_start_def round_up_def int64_T_def)
qed

section \<open>Layout of a sequence of allocations\<close>

text \<open>
  C4, as stated, asks that every returned address be a multiple of the alignment.
  \<open>alloc\<close> aligns the offset from base, not the address, and base is whatever
  \<open>mmap\<close> returned: a multiple of the page size. For a type aligned to 8192 bytes
  and a base that is a multiple of 4096 only, the request fits, the offset is 0 and
  the address returned is base, which is not a multiple of 8192.
\<close>

theorem overaligned_type_on_page_aligned_base:
  "power_of_two (alignof overaligned_T)
   \<and> plan_end 0 (map request [(overaligned_T, 1)]) \<le> 0x4000
   \<and> 4096 dvd unat (0x7f5a3c001000 :: addr)
   \<and> alloc_calls [(overaligned_T, 1)]
         \<lparr>arena_base = 0x7f5a3c001000, arena_size = 0x4000, arena_offset = 0\<rparr>
       = ([], Returns [0x7f5a3c001000],
          \<lparr>arena_base = 0x7f5a3c001000, arena_size = 0x4000, arena_offset = 0x2000\<rparr>)
   \<and> \<not> unat (alignof overaligned_T) dvd unat (0x7f5a3c001000 :: addr)"
proof -
  have "power_of_two (alignof overaligned_T)"
    using power_of_twoI [of 13] by (simp add: overaligned_T_def)
  then show ?thesis
    by (simp add: alloc_def request_def needed_bytes_def round_up_def overaligned_T_def)
qed

text \<open>
  C4, amended. For requests whose alignments are powers of two and that fit
  collectively, in a mapping that lies inside the address space: every call returns
  and prints nothing; every returned address is base plus an offset that is a multiple
  of the requested alignment, hence itself a multiple whenever base is; the extents
  are pairwise disjoint and disjoint from the unused region; base and capacity are
  unchanged; and the cursor has advanced by the sum of the aligned extents.
\<close>

theorem alloc_sequence_layout:
  assumes pw: "list_all (\<lambda>r. power_of_two (alignof (fst r))) rs"
      and fit: "plan_end (unat (arena_offset s)) (map request rs) \<le> unat (arena_size s)"
      and inside: "unat (arena_base s) + unat (arena_size s) < 2 ^ 64"
  shows "\<exists>ps s'. alloc_calls rs s = ([], Returns ps, s')
      \<and> length ps = length rs
      \<and> arena_base s' = arena_base s \<and> arena_size s' = arena_size s
      \<and> (\<forall>i<length rs. unat (arena_base s) \<le> unat (ps ! i)
            \<and> unat (alignof (fst (rs ! i))) dvd (unat (ps ! i) - unat (arena_base s))
            \<and> (unat (alignof (fst (rs ! i))) dvd unat (arena_base s)
                 \<longrightarrow> unat (alignof (fst (rs ! i))) dvd unat (ps ! i)))
      \<and> (\<forall>i<length rs. \<forall>j<length rs. i \<noteq> j \<longrightarrow>
             extent (ps ! i) (rs ! i) \<inter> extent (ps ! j) (rs ! j) = {})
      \<and> (\<forall>i<length rs. extent (ps ! i) (rs ! i) \<inter> unused_region s' = {})
      \<and> unat (arena_offset s')
          = unat (arena_offset s)
            + sum_list (aligned_extents (unat (arena_offset s)) (map request rs))"
proof -
  define c where "c = unat (arena_offset s)"
  define rq where "rq = map request rs"
  define ps where "ps = map (\<lambda>e. arena_base s + of_nat (fst e)) (plan c rq)"
  define s' where "s' = s\<lparr>arena_offset := of_nat (plan_end c rq)\<rparr>"
  have pos: "list_all (\<lambda>r. 0 < fst r) rq"
    unfolding rq_def using pw by (rule request_pos)
  have len: "length rq = length rs"
    by (simp add: rq_def)
  have run: "alloc_calls rs s = ([], Returns ps, s')"
    unfolding ps_def s'_def c_def rq_def using pw fit by (rule alloc_calls_fit)
  have fit': "plan_end c rq \<le> unat (arena_size s)"
    using fit by (simp add: c_def rq_def)
  have off: "unat (arena_offset s') = plan_end c rq"
    using fit' inside unat_of_nat [of "plan_end c rq", where 'a = 64] by (simp add: s'_def)
  have nth: "unat (ps ! i) = unat (arena_base s) + fst (plan c rq ! i)
             \<and> fst (plan c rq ! i) + needed_bytes (fst (rs ! i)) (snd (rs ! i)) \<le> plan_end c rq
             \<and> unat (alignof (fst (rs ! i))) dvd fst (plan c rq ! i)"
    if "i < length rs" for i
  proof -
    have i: "i < length rq"
      using that len by simp
    have rqi: "rq ! i = (unat (alignof (fst (rs ! i))), needed_bytes (fst (rs ! i)) (snd (rs ! i)))"
      using that by (simp add: rq_def request_def)
    note b = plan_nth_bounds [OF pos i, of c]
    have "unat (arena_base s) + fst (plan c rq ! i) < 2 ^ 64"
      using b fit' inside by simp
    then have "unat (arena_base s + of_nat (fst (plan c rq ! i)))
               = unat (arena_base s) + fst (plan c rq ! i)"
      by (rule unat_base_plus)
    then show ?thesis
      using b i rqi by (simp add: ps_def)
  qed
  have aligned: "unat (arena_base s) \<le> unat (ps ! i)
        \<and> unat (alignof (fst (rs ! i))) dvd (unat (ps ! i) - unat (arena_base s))
        \<and> (unat (alignof (fst (rs ! i))) dvd unat (arena_base s)
             \<longrightarrow> unat (alignof (fst (rs ! i))) dvd unat (ps ! i))"
    if "i < length rs" for i
    using nth [OF that] by simp
  have ordered: "extent (ps ! i) (rs ! i) \<inter> extent (ps ! j) (rs ! j) = {}"
    if "i < j" and "j < length rs" for i j
  proof -
    have "fst (plan c rq ! i) + snd (plan c rq ! i) \<le> fst (plan c rq ! j)"
      using pos that len by (simp add: plan_nth_ordered)
    moreover have "snd (plan c rq ! i) = needed_bytes (fst (rs ! i)) (snd (rs ! i))"
      using plan_nth_bounds [OF pos, of i c] that len by (simp add: rq_def request_def)
    ultimately show ?thesis
      using nth [of i] nth [of j] that by (auto simp: extent_def)
  qed
  have disjoint: "extent (ps ! i) (rs ! i) \<inter> extent (ps ! j) (rs ! j) = {}"
    if "i < length rs" and "j < length rs" and "i \<noteq> j" for i j
  proof (cases "i < j")
    case True
    then show ?thesis
      using that by (simp add: ordered)
  next
    case False
    then have "j < i"
      using that by simp
    then have "extent (ps ! j) (rs ! j) \<inter> extent (ps ! i) (rs ! i) = {}"
      using that by (simp add: ordered)
    then show ?thesis
      by blast
  qed
  have unused: "extent (ps ! i) (rs ! i) \<inter> unused_region s' = {}"
    if "i < length rs" for i
    using nth [OF that] off by (auto simp: extent_def unused_region_def s'_def)
  have total: "unat (arena_offset s')
          = unat (arena_offset s)
            + sum_list (aligned_extents (unat (arena_offset s)) (map request rs))"
    using off plan_end_sum [OF pos, of c] by (simp add: c_def rq_def)
  have "length ps = length rs"
    by (simp add: ps_def len)
  moreover have "arena_base s' = arena_base s \<and> arena_size s' = arena_size s"
    by (simp add: s'_def)
  ultimately show ?thesis
    using run aligned disjoint unused total by blast
qed

theorem alloc_sequence_layout_witness:
  "list_all (\<lambda>r. power_of_two (alignof (fst r))) [(char_T, 1), (char_T, 1), (int64_T, 1)]
   \<and> plan_end (unat (arena_offset \<lparr>arena_base = 0x7f0000000000, arena_size = 1024, arena_offset = 0\<rparr>))
         (map request [(char_T, 1), (char_T, 1), (int64_T, 1)])
       \<le> unat (arena_size \<lparr>arena_base = 0x7f0000000000, arena_size = 1024, arena_offset = 0\<rparr>)
   \<and> alloc_calls [(char_T, 1), (char_T, 1), (int64_T, 1)]
         \<lparr>arena_base = 0x7f0000000000, arena_size = 1024, arena_offset = 0\<rparr>
       = ([], Returns [0x7f0000000000, 0x7f0000000001, 0x7f0000000008],
          \<lparr>arena_base = 0x7f0000000000, arena_size = 1024, arena_offset = 16\<rparr>)
   \<and> aligned_extents 0 (map request [(char_T, 1), (char_T, 1), (int64_T, 1)]) = [1, 1, 14]"
proof -
  let ?s = "\<lparr>arena_base = 0x7f0000000000, arena_size = 1024, arena_offset = 0\<rparr>"
  let ?rs = "[(char_T, 1), (char_T, 1), (int64_T, 1 :: size_t)]"
  have p: "list_all (\<lambda>r. power_of_two (alignof (fst r))) ?rs"
    using power_of_twoI [of 0] power_of_twoI [of 3] by (simp add: char_T_def int64_T_def)
  have f: "plan_end (unat (arena_offset ?s)) (map request ?rs) \<le> unat (arena_size ?s)"
    by (simp add: request_def needed_bytes_def round_up_def char_T_def int64_T_def)
  have i: "unat (arena_base ?s) + unat (arena_size ?s) < 2 ^ 64"
    by simp
  have e: "aligned_extents 0 (map request ?rs) = [1, 1, 14]"
    by (simp add: request_def needed_bytes_def round_up_def char_T_def int64_T_def)
  from alloc_sequence_layout [OF p f i] obtain ps s'
    where r: "alloc_calls ?rs ?s = ([], Returns ps, s')"
      and l: "length ps = length ?rs"
      and b: "arena_base s' = arena_base ?s" "arena_size s' = arena_size ?s"
      and a: "\<forall>i<length ?rs. unat (arena_base ?s) \<le> unat (ps ! i)
            \<and> unat (alignof (fst (?rs ! i))) dvd (unat (ps ! i) - unat (arena_base ?s))
            \<and> (unat (alignof (fst (?rs ! i))) dvd unat (arena_base ?s)
                 \<longrightarrow> unat (alignof (fst (?rs ! i))) dvd unat (ps ! i))"
      and t: "unat (arena_offset s')
          = unat (arena_offset ?s) + sum_list (aligned_extents (unat (arena_offset ?s)) (map request ?rs))"
    by blast
  have "alloc_calls ?rs ?s
       = ([], Returns [0x7f0000000000, 0x7f0000000001, 0x7f0000000008],
          \<lparr>arena_base = 0x7f0000000000, arena_size = 1024, arena_offset = 16\<rparr>)"
    by (simp add: alloc_def char_T_def int64_T_def)
  then show ?thesis
    using p f e r by simp
qed

section \<open>Membership\<close>

text \<open>
  C5. In a mapping that lies inside the address space, with its end address
  representable, \<open>is_arena_ptr\<close> returns true exactly for the addresses from base up
  to, but not including, base plus capacity; it prints nothing and returns the static
  members unchanged.
\<close>

theorem is_arena_ptr_range:
  assumes "unat (arena_base s) + unat (arena_size s) < 2 ^ 64"
  shows "is_arena_ptr p s =
           ([], Returns (unat (arena_base s) \<le> unat p
                         \<and> unat p < unat (arena_base s) + unat (arena_size s)), s)"
  using assms by (rule is_arena_ptr_unat)

theorem is_arena_ptr_range_witness:
  "unat (arena_base \<lparr>arena_base = 0x7f0000000000, arena_size = 1024, arena_offset = 80\<rparr>)
     + unat (arena_size \<lparr>arena_base = 0x7f0000000000, arena_size = 1024, arena_offset = 80\<rparr>)
     < 2 ^ 64
   \<and> is_arena_ptr 0x7f00000003ff \<lparr>arena_base = 0x7f0000000000, arena_size = 1024, arena_offset = 80\<rparr>
       = ([], Returns True, \<lparr>arena_base = 0x7f0000000000, arena_size = 1024, arena_offset = 80\<rparr>)
   \<and> is_arena_ptr 0x7f0000000400 \<lparr>arena_base = 0x7f0000000000, arena_size = 1024, arena_offset = 80\<rparr>
       = ([], Returns False, \<lparr>arena_base = 0x7f0000000000, arena_size = 1024, arena_offset = 80\<rparr>)"
proof -
  have h: "unat (arena_base \<lparr>arena_base = 0x7f0000000000, arena_size = 1024, arena_offset = 80\<rparr>)
     + unat (arena_size \<lparr>arena_base = 0x7f0000000000, arena_size = 1024, arena_offset = 80\<rparr>)
     < 2 ^ 64"
    by simp
  show ?thesis
    using h is_arena_ptr_range [OF h, of "0x7f00000003ff"]
      is_arena_ptr_range [OF h, of "0x7f0000000400"]
    by simp
qed

text \<open>
  C6, as stated, asks that \<open>is_arena_ptr\<close> be true for every pointer that
  \<open>alloc\<close> returned. When the arena is full, a call with count 0 returns base plus
  capacity, the address one past the mapping, and \<open>is_arena_ptr\<close> is false for it.
\<close>

theorem empty_allocation_at_end_not_arena_ptr:
  "alloc char_T 1024 \<lparr>arena_base = 0x7f0000000000, arena_size = 1024, arena_offset = 0\<rparr>
     = ([], Returns 0x7f0000000000,
        \<lparr>arena_base = 0x7f0000000000, arena_size = 1024, arena_offset = 1024\<rparr>)
   \<and> alloc int64_T 0 \<lparr>arena_base = 0x7f0000000000, arena_size = 1024, arena_offset = 1024\<rparr>
     = ([], Returns 0x7f0000000400,
        \<lparr>arena_base = 0x7f0000000000, arena_size = 1024, arena_offset = 1024\<rparr>)
   \<and> is_arena_ptr 0x7f0000000400
        \<lparr>arena_base = 0x7f0000000000, arena_size = 1024, arena_offset = 1024\<rparr>
     = ([], Returns False,
        \<lparr>arena_base = 0x7f0000000000, arena_size = 1024, arena_offset = 1024\<rparr>)"
  by (simp add: alloc_def is_arena_ptr_def char_T_def int64_T_def)

text \<open>
  C6, amended. In a mapping that lies inside the address space (base plus capacity
  below \<open>2 ^ 64\<close>), for a request that fits, and in every later state with the same
  base and capacity: \<open>is_arena_ptr\<close> is true for the returned pointer unless that
  pointer is base plus capacity, which it is exactly when the aligned start equals
  the capacity; it is true for every address within the extent of the allocation;
  and it is false for every address outside base up to base plus capacity.
\<close>

theorem allocation_extent_is_arena_ptr:
  assumes "power_of_two (alignof T)"
      and "aligned_start T s + needed_bytes T n \<le> unat (arena_size s)"
      and "unat (arena_base s) + unat (arena_size s) < 2 ^ 64"
      and "arena_base s'' = arena_base s" and "arena_size s'' = arena_size s"
  shows "\<exists>p s'. alloc T n s = ([], Returns p, s')
      \<and> (p \<noteq> arena_base s + arena_size s \<longrightarrow> is_arena_ptr p s'' = ([], Returns True, s''))
      \<and> (p = arena_base s + arena_size s \<longleftrightarrow> aligned_start T s = unat (arena_size s))
      \<and> is_arena_ptr p s'' = ([], Returns (aligned_start T s < unat (arena_size s)), s'')
      \<and> (\<forall>a. unat a \<in> extent p (T, n) \<longrightarrow> is_arena_ptr a s'' = ([], Returns True, s''))
      \<and> (\<forall>q. unat q \<notin> {unat (arena_base s) ..< unat (arena_base s) + unat (arena_size s)}
             \<longrightarrow> is_arena_ptr q s'' = ([], Returns False, s''))"
proof -
  define p where "p = arena_base s + of_nat (aligned_start T s)"
  define s' where "s' = s\<lparr>arena_offset := of_nat (aligned_start T s + needed_bytes T n)\<rparr>"
  have r: "alloc T n s = ([], Returns p, s')"
    unfolding p_def s'_def using assms(1,2) by (rule alloc_fits)
  have "unat (arena_base s) + aligned_start T s < 2 ^ 64"
    using assms(2,3) by simp
  then have u: "unat p = unat (arena_base s) + aligned_start T s"
    unfolding p_def by (rule unat_base_plus)
  have e: "unat (arena_base s + arena_size s) = unat (arena_base s) + unat (arena_size s)"
    using assms(3) by (simp add: unat_word_ariths)
  have "unat (arena_base s'') + unat (arena_size s'') < 2 ^ 64"
    using assms by simp
  note c = is_arena_ptr_unat [OF this]
  have le: "aligned_start T s \<le> unat (arena_size s)"
    using assms(2) by simp
  have "p = arena_base s + arena_size s \<longleftrightarrow> unat p = unat (arena_base s + arena_size s)"
    by (simp add: word_unat_eq_iff)
  then have last: "p = arena_base s + arena_size s \<longleftrightarrow> aligned_start T s = unat (arena_size s)"
    by (simp add: u e)
  have own: "is_arena_ptr p s'' = ([], Returns (aligned_start T s < unat (arena_size s)), s'')"
    using u assms by (simp add: c)
  have inner: "is_arena_ptr p s'' = ([], Returns True, s'')" if "p \<noteq> arena_base s + arena_size s"
    using that last le own by simp
  have inside: "is_arena_ptr a s'' = ([], Returns True, s'')" if "unat a \<in> extent p (T, n)" for a
    using that u assms by (simp add: c extent_def)
  have outside: "is_arena_ptr q s'' = ([], Returns False, s'')"
    if "unat q \<notin> {unat (arena_base s) ..< unat (arena_base s) + unat (arena_size s)}" for q
    using that assms by (auto simp: c)
  show ?thesis
    using le by (intro exI [of _ p] exI [of _ s']) (auto simp: r inside outside last own)
qed

theorem allocation_extent_is_arena_ptr_witness:
  "power_of_two (alignof int64_T)
   \<and> aligned_start int64_T \<lparr>arena_base = 0x7f0000000000, arena_size = 1024, arena_offset = 2\<rparr>
       + needed_bytes int64_T 0 \<le> 1024
   \<and> alloc int64_T 0 \<lparr>arena_base = 0x7f0000000000, arena_size = 1024, arena_offset = 2\<rparr>
       = ([], Returns 0x7f0000000008,
          \<lparr>arena_base = 0x7f0000000000, arena_size = 1024, arena_offset = 8\<rparr>)
   \<and> is_arena_ptr 0x7f0000000008 \<lparr>arena_base = 0x7f0000000000, arena_size = 1024, arena_offset = 8\<rparr>
       = ([], Returns True, \<lparr>arena_base = 0x7f0000000000, arena_size = 1024, arena_offset = 8\<rparr>)
   \<and> alloc int64_T 10 \<lparr>arena_base = 0x7f0000000000, arena_size = 1024, arena_offset = 8\<rparr>
       = ([], Returns 0x7f0000000008,
          \<lparr>arena_base = 0x7f0000000000, arena_size = 1024, arena_offset = 88\<rparr>)
   \<and> is_arena_ptr 0x7f0000000057 \<lparr>arena_base = 0x7f0000000000, arena_size = 1024, arena_offset = 88\<rparr>
       = ([], Returns True, \<lparr>arena_base = 0x7f0000000000, arena_size = 1024, arena_offset = 88\<rparr>)
   \<and> is_arena_ptr 0x55d0c0de1000 \<lparr>arena_base = 0x7f0000000000, arena_size = 1024, arena_offset = 88\<rparr>
       = ([], Returns False, \<lparr>arena_base = 0x7f0000000000, arena_size = 1024, arena_offset = 88\<rparr>)"
proof -
  let ?s = "\<lparr>arena_base = 0x7f0000000000, arena_size = 1024, arena_offset = 2\<rparr>"
  let ?s1 = "\<lparr>arena_base = 0x7f0000000000, arena_size = 1024, arena_offset = 8\<rparr>"
  let ?s2 = "\<lparr>arena_base = 0x7f0000000000, arena_size = 1024, arena_offset = 88\<rparr>"
  have p: "power_of_two (alignof int64_T)"
    using power_of_twoI [of 3] by (simp add: int64_T_def)
  have f0: "aligned_start int64_T ?s + needed_bytes int64_T 0 \<le> unat (arena_size ?s)"
    by (simp add: aligned_start_def needed_bytes_def round_up_def int64_T_def)
  have f1: "aligned_start int64_T ?s1 + needed_bytes int64_T 10 \<le> unat (arena_size ?s1)"
    by (simp add: aligned_start_def needed_bytes_def round_up_def int64_T_def)
  have i0: "unat (arena_base ?s) + unat (arena_size ?s) < 2 ^ 64"
    and i1: "unat (arena_base ?s1) + unat (arena_size ?s1) < 2 ^ 64"
    by simp_all
  have a0: "alloc int64_T 0 ?s = ([], Returns 0x7f0000000008, ?s1)"
    and a1: "alloc int64_T 10 ?s1 = ([], Returns 0x7f0000000008, ?s2)"
    by (simp_all add: alloc_def int64_T_def)
  have b0: "arena_base ?s1 = arena_base ?s" and z0: "arena_size ?s1 = arena_size ?s"
    and b1: "arena_base ?s2 = arena_base ?s1" and z1: "arena_size ?s2 = arena_size ?s1"
    by simp_all
  from allocation_extent_is_arena_ptr [OF p f0 i0 b0 z0] obtain q0 t0
    where r0: "alloc int64_T 0 ?s = ([], Returns q0, t0)"
      and n0: "q0 \<noteq> arena_base ?s + arena_size ?s
                \<longrightarrow> is_arena_ptr q0 ?s1 = ([], Returns True, ?s1)"
    by blast
  from r0 a0 have q0: "q0 = 0x7f0000000008"
    by simp
  have empty: "is_arena_ptr 0x7f0000000008 ?s1 = ([], Returns True, ?s1)"
    using n0 by (simp add: q0)
  from allocation_extent_is_arena_ptr [OF p f1 i1 b1 z1] obtain q1 t1
    where r1: "alloc int64_T 10 ?s1 = ([], Returns q1, t1)"
      and e1: "\<forall>a. unat a \<in> extent q1 (int64_T, 10)
                \<longrightarrow> is_arena_ptr a ?s2 = ([], Returns True, ?s2)"
      and o1: "\<forall>a. unat a \<notin> {unat (arena_base ?s1) ..< unat (arena_base ?s1) + unat (arena_size ?s1)}
                \<longrightarrow> is_arena_ptr a ?s2 = ([], Returns False, ?s2)"
    by blast
  from r1 a1 have q1: "q1 = 0x7f0000000008"
    by simp
  have "unat (0x7f0000000057 :: addr) \<in> extent q1 (int64_T, 10)"
    by (simp add: q1 extent_def needed_bytes_def int64_T_def)
  with e1 have last: "is_arena_ptr 0x7f0000000057 ?s2 = ([], Returns True, ?s2)"
    by blast
  have out: "is_arena_ptr 0x55d0c0de1000 ?s2 = ([], Returns False, ?s2)"
    using o1 by simp
  show ?thesis
    using p f0 a0 a1 empty last out by simp
qed

text \<open>
  C9. Before \<open>init\<close>, base is null and the capacity is 0, and \<open>is_arena_ptr\<close>
  returns false for every pointer.
\<close>

theorem is_arena_ptr_uninitialized:
  assumes "arena_base s = nullptr" and "arena_size s = 0"
  shows "is_arena_ptr p s = ([], Returns False, s)"
  using assms by (simp add: is_arena_ptr_def nullptr_def)

theorem is_arena_ptr_uninitialized_witness:
  "arena_base static_init = nullptr \<and> arena_size static_init = 0
   \<and> is_arena_ptr 0x55d0c0de1000 static_init = ([], Returns False, static_init)"
proof -
  have b: "arena_base static_init = nullptr" and z: "arena_size static_init = 0"
    by (simp_all add: static_init_def)
  show ?thesis
    using b z is_arena_ptr_uninitialized [OF b z, of "0x55d0c0de1000"] by simp
qed

section \<open>Initialising twice\<close>



end
